theory Spec2Isabelle
  imports Main
begin

section \<open>Circuit breaker flow-node: data model\<close>

text \<open>
  The embedding follows the action file of the circuit-breaker plugin
  (\<^verbatim>\<open>configCheckCircuitBreaker\<close>, \<^verbatim>\<open>updateCircuitBreaker\<close> and their helpers).

  Conventions of the model:
  \<^item> JavaScript numbers that the code handles are integers (timestamps in milliseconds,
    counters, HTTP codes, configuration values); they are modelled as \<open>int\<close>. A JavaScript
    number is an IEEE double: the integers of magnitude up to \<open>2^53 - 1\<close> (\<open>safe_integer\<close>)
    are exactly the ones on which the arithmetic, the reading of a digit string and the
    printing of a number are those of the integers. The statements that depend on the
    reading of a token or on the printed text of a code carry that bound.
  \<^item> A property that may be \<^verbatim>\<open>undefined\<close> (or \<^verbatim>\<open>null\<close>) is an \<open>option\<close>; arithmetic on
    \<^verbatim>\<open>undefined\<close> gives NaN and every comparison with NaN is false, which \<open>js_lt\<close>,
    \<open>js_ge\<close> and \<open>js_le\<close> write out.
  \<^item> Every \<^verbatim>\<open>new Date().getTime()\<close> of one invocation reads the same value \<open>now\<close>,
    which is an argument of the model; \<^verbatim>\<open>_getRandomId()\<close> is the argument \<open>rid\<close>.
  \<^item> The cache is created with \<^verbatim>\<open>useClones: false\<close>: it holds the breaker object itself,
    so every mutation of the object is a mutation of the cached state, also when the
    invocation later throws. The model writes the mutated breaker back into the map.
  \<^item> A thrown exception is the \<open>Inl\<close> of the result; the flow engine reports it on the
    \<^verbatim>\<open>error\<close> output. Log messages are not modelled, but a call on a logger that is
    \<^verbatim>\<open>undefined\<close> throws, and that is.
\<close>

datatype status = Closed | Open | Halfopen

datatype route = Next | OpenOut

datatype exn = Error string | TypeError string

datatype logger = Logger

record error_event =
  error :: string
  timestamp :: int
  cause :: string

record flow_params =
  circuitBreakerId :: "string option"
  httpResponseCode :: "int option"
  maxErrorCount :: "int option"
  timeRange :: "int option"
  halfOpenSuccesses :: "int option"
  recoverPeriod :: "int option"
  communicationError :: "bool option"
  returnCodes :: "string option"
  maxResponseTime :: "int option"

record circuit_breaker =
  status :: status
  "output" :: route
  errors :: "error_event list"
  successCount :: int
  errorCodeMap :: "int \<rightharpoonup> bool"
  params :: flow_params
  openedTimestamp :: "int option"

type_synonym cache = "string \<rightharpoonup> circuit_breaker"

type_synonym outcome = "exn + (route \<times> circuit_breaker)"

section \<open>JavaScript primitives used by the code\<close>

fun js_lt :: "int option \<Rightarrow> int option \<Rightarrow> bool" where
  "js_lt (Some a) (Some b) = (a < b)"
| "js_lt _ _ = False"

fun js_ge :: "int option \<Rightarrow> int option \<Rightarrow> bool" where
  "js_ge (Some a) (Some b) = (b \<le> a)"
| "js_ge _ _ = False"

fun js_le :: "int option \<Rightarrow> int option \<Rightarrow> bool" where
  "js_le (Some a) (Some b) = (a \<le> b)"
| "js_le _ _ = False"

text \<open>\<^verbatim>\<open>Number.isSafeInteger\<close>: the integers that a double holds without rounding.\<close>

definition safe_integer :: "int \<Rightarrow> bool" where
  "safe_integer i = (- 9007199254740991 \<le> i \<and> i \<le> 9007199254740991)"

text \<open>\<^verbatim>\<open>!x\<close> on a string or a number that may be undefined.\<close>

fun falsy_string :: "string option \<Rightarrow> bool" where
  "falsy_string None = True"
| "falsy_string (Some s) = (s = [])"

fun falsy_number :: "int option \<Rightarrow> bool" where
  "falsy_number None = True"
| "falsy_number (Some n) = (n = 0)"

subsection \<open>Strings\<close>

text \<open>
  A \<open>char\<close> is one code unit below 256. The white space that \<^verbatim>\<open>trim\<close> and the
  string-to-number conversion strip is TAB, LF, VT, FF, CR, SPACE and NBSP.
\<close>

definition is_ws :: "char \<Rightarrow> bool" where
  "is_ws c = (of_char c \<in> {9::nat, 10, 11, 12, 13, 32, 160})"

definition is_digit :: "char \<Rightarrow> bool" where
  "is_digit c = (48 \<le> (of_char c :: nat) \<and> (of_char c :: nat) \<le> 57)"

definition trim :: "string \<Rightarrow> string" where
  "trim s = rev (dropWhile is_ws (rev (dropWhile is_ws s)))"

text \<open>\<^verbatim>\<open>s.split(sep)\<close> for a one-character separator: never empty, \<open>[[]]\<close> on the empty string.\<close>

fun split_on :: "char \<Rightarrow> string \<Rightarrow> string list" where
  "split_on sep [] = [[]]"
| "split_on sep (c # cs) =
     (if c = sep then [] # split_on sep cs
      else (case split_on sep cs of
              [] \<Rightarrow> [[c]]
            | p # ps \<Rightarrow> (c # p) # ps))"

text \<open>\<^verbatim>\<open>element.replace(/\[|\]/g, "")\<close>: every bracket goes, wherever it stands.\<close>

definition remove_brackets :: "string \<Rightarrow> string" where
  "remove_brackets s = filter (\<lambda>c. c \<noteq> CHR ''['' \<and> c \<noteq> CHR '']'') s"

fun dec_value :: "string \<Rightarrow> int \<Rightarrow> int" where
  "dec_value [] acc = acc"
| "dec_value (c # cs) acc = dec_value cs (10 * acc + (of_char c - 48))"

text \<open>
  The conversion of a string to a number, which \<^verbatim>\<open>>=\<close>, \<^verbatim>\<open><=\<close> and \<^verbatim>\<open>==\<close> apply to the string
  operand when the other operand is a number: white space is stripped, the empty string
  is 0, a sequence of decimal digits is its value, and \<open>None\<close> is NaN. This is the
  conversion of the code on the strings that are white space around decimal digits
  whose value is a safe integer. Outside them the model is not the code: a longer digit
  string is rounded to a double by the code, and the other numeric literals of JavaScript
  (a sign, a fraction, an exponent, a radix prefix, Infinity) are numbers for the code and
  NaN here. The statements about classification below are about specs all of whose
  tokens are decimal digits with a safe value (\<open>is_int_literal\<close>).
\<close>

definition str_to_number :: "string \<Rightarrow> int option" where
  "str_to_number s =
     (let t = trim s in
      if t = [] then Some 0
      else if list_all is_digit t then Some (dec_value t 0)
      else None)"

text \<open>
  The decimal text of an integer. A template literal prints a number so when the number
  is a safe integer; the code prints a larger number with rounded digits, and from
  \<open>10^21\<close> on with an exponent, which the model does not. The statement about the cause of
  a recorded error carries the bound \<open>safe_integer\<close> on the code.
\<close>

definition digit_char :: "int \<Rightarrow> char" where
  "digit_char d = char_of (48 + d)"

function decimal_text :: "int \<Rightarrow> string" where
  "decimal_text n =
     (if n < 10 then [digit_char n] else decimal_text (n div 10) @ [digit_char (n mod 10)])"
  by pat_completeness auto
termination
  by (relation "measure nat") auto

definition number_to_string :: "int \<Rightarrow> string" where
  "number_to_string i =
     (if i < 0 then CHR ''-'' # decimal_text (- i) else decimal_text i)"

section \<open>The helpers of the action file\<close>

definition setDefaultParams :: "flow_params \<Rightarrow> flow_params" where
  "setDefaultParams p =
     p\<lparr> maxErrorCount := (case maxErrorCount p of None \<Rightarrow> Some 10 | Some v \<Rightarrow> Some v),
        timeRange := (case timeRange p of None \<Rightarrow> Some 300 | Some v \<Rightarrow> Some v),
        halfOpenSuccesses := (case halfOpenSuccesses p of None \<Rightarrow> Some 5 | Some v \<Rightarrow> Some v),
        recoverPeriod := (case recoverPeriod p of None \<Rightarrow> Some 30 | Some v \<Rightarrow> Some v),
        communicationError := (case communicationError p of None \<Rightarrow> Some True | Some v \<Rightarrow> Some v),
        returnCodes := (case returnCodes p of None \<Rightarrow> Some ''[300-999]'' | Some v \<Rightarrow> Some v),
        maxResponseTime := (case maxResponseTime p of None \<Rightarrow> Some 100 | Some v \<Rightarrow> Some v) \<rparr>"

text \<open>
  \<^verbatim>\<open>_handleHalfopenStatus(circuitBreaker, logger)\<close>. The only use of the logger is in the
  branch that closes the breaker, before the assignments of that branch; with the
  logger undefined the property read throws there, after \<open>output\<close> has been set.
\<close>

definition handleHalfopenStatus ::
  "circuit_breaker \<Rightarrow> logger option \<Rightarrow> circuit_breaker \<times> exn option" where
  "handleHalfopenStatus cb lg =
     (let cb1 = (if successCount cb mod 2 = 0 then cb\<lparr>output := Next\<rparr>
                 else cb\<lparr>output := OpenOut\<rparr>) in
      if js_ge (Some (successCount cb1)) (halfOpenSuccesses (params cb1)) then
        (case lg of
           None \<Rightarrow> (cb1, Some (TypeError ''debug''))
         | Some _ \<Rightarrow> (cb1\<lparr>status := Closed, output := Next, errors := []\<rparr>, None))
      else (cb1, None))"

definition handleClosedStatus :: "circuit_breaker \<Rightarrow> circuit_breaker" where
  "handleClosedStatus cb = cb\<lparr>output := Next\<rparr>"

text \<open>
  The \<^verbatim>\<open>forEach\<close> of \<^verbatim>\<open>_handleOpenStatus\<close>, with its callback. \<^verbatim>\<open>forEach\<close> reads the length
  once and visits the indices \<open>k = 0, 1, ...\<close> below it, skipping an index that the array
  no longer has; the callback compares the entry's timestamp with the start of the time
  range and calls \<^verbatim>\<open>object.splice(index)\<close>, which removes the entry at \<open>index\<close> and every
  entry after it. The first argument counts the indices still to visit.
\<close>

fun forEach_splice ::
  "nat \<Rightarrow> nat \<Rightarrow> int option \<Rightarrow> error_event list \<Rightarrow> error_event list" where
  "forEach_splice 0 k start arr = arr"
| "forEach_splice (Suc n) k start arr =
     (if k < length arr then
        (if js_lt (Some (timestamp (arr ! k))) start
         then forEach_splice n (Suc k) start (take k arr)
         else forEach_splice n (Suc k) start arr)
      else forEach_splice n (Suc k) start arr)"

definition timeRangeStart :: "int \<Rightarrow> flow_params \<Rightarrow> int option" where
  "timeRangeStart now p = map_option (\<lambda>r. now - r * 1000) (timeRange p)"

definition handleOpenStatus ::
  "int \<Rightarrow> circuit_breaker \<Rightarrow> logger \<Rightarrow> circuit_breaker \<times> exn option" where
  "handleOpenStatus now cb lg =
     (let cb1 = cb\<lparr>output := OpenOut\<rparr>;
          recoverPeriod_ms = map_option (\<lambda>r. r * 1000) (recoverPeriod (params cb1)) in
      if js_lt (openedTimestamp cb1) (map_option (\<lambda>r. now - r) recoverPeriod_ms) then
        handleHalfopenStatus (cb1\<lparr>status := Halfopen, successCount := 0\<rparr>) None
      else
        (let cb2 = cb1\<lparr>errors :=
                     forEach_splice (length (errors cb1)) 0
                       (timeRangeStart now (params cb1)) (errors cb1)\<rparr> in
         if js_lt (Some (int (length (errors cb2)))) (maxErrorCount (params cb2)) then
           (cb2\<lparr>status := Closed, output := Next\<rparr>, None)
         else (cb2, None)))"

subsection \<open>Classification of a response code\<close>

text \<open>The body of the loop over the fields of the spec: does this field match the code?\<close>

definition field_matches :: "int \<Rightarrow> string \<Rightarrow> bool" where
  "field_matches code field =
     (let element = trim field in
      if CHR ''-'' \<in> set element then
        (case split_on CHR ''-'' (remove_brackets element) of
           lo # hi # _ \<Rightarrow>
             js_ge (Some code) (str_to_number (trim lo)) \<and>
             js_le (Some code) (str_to_number (trim hi))
         | _ \<Rightarrow> False)
      else Some code = str_to_number element)"

text \<open>The loop itself: it stops with \<open>True\<close> at the first field that matches.\<close>

fun match_fields :: "int \<Rightarrow> string list \<Rightarrow> bool" where
  "match_fields code [] = False"
| "match_fields code (f # fs) = (if field_matches code f then True else match_fields code fs)"

definition isReturnCodeAnError ::
  "circuit_breaker \<Rightarrow> int option \<Rightarrow> exn + (bool \<times> circuit_breaker)" where
  "isReturnCodeAnError cb code_opt =
     (case code_opt of
        None \<Rightarrow> Inr (False, cb)
      | Some code \<Rightarrow>
          (case errorCodeMap cb code of
             Some v \<Rightarrow> Inr (v, cb)
           | None \<Rightarrow>
               (case returnCodes (params cb) of
                  None \<Rightarrow> Inl (TypeError ''split'')
                | Some errorCodes \<Rightarrow>
                    (let result = match_fields code (split_on CHR '','' errorCodes) in
                     Inr (result, cb\<lparr>errorCodeMap := (errorCodeMap cb)(code \<mapsto> result)\<rparr>)))))"

section \<open>The two actions\<close>

definition configCheckCircuitBreaker ::
  "int \<Rightarrow> cache \<Rightarrow> flow_params \<Rightarrow> cache \<times> outcome" where
  "configCheckCircuitBreaker now circuitBreakerCache p =
     (if falsy_string (circuitBreakerId p) then
        (circuitBreakerCache, Inl (Error ''Missing required parameter: circuitBreakerId''))
      else
        (case circuitBreakerId p of
           None \<Rightarrow> (circuitBreakerCache, Inl (Error ''Missing required parameter: circuitBreakerId''))
         | Some cbid \<Rightarrow>
             (let cb0 = (case circuitBreakerCache cbid of
                           None \<Rightarrow> \<lparr>status = Closed, output = Next, errors = [],
                                     successCount = 0, errorCodeMap = Map.empty,
                                     params = setDefaultParams p, openedTimestamp = None\<rparr>
                         | Some cb \<Rightarrow> cb);
                  r = (case status cb0 of
                         Open \<Rightarrow> handleOpenStatus now cb0 Logger
                       | Halfopen \<Rightarrow> handleHalfopenStatus cb0 (Some Logger)
                       | Closed \<Rightarrow> (handleClosedStatus cb0, None))
              in (case snd r of
                    Some e \<Rightarrow> (circuitBreakerCache(cbid \<mapsto> fst r), Inl e)
                  | None \<Rightarrow> (circuitBreakerCache(cbid \<mapsto> fst r), Inr (output (fst r), fst r))))))"

text \<open>
  \<^verbatim>\<open>updateCircuitBreaker\<close>. When the cache has no entry, \<^verbatim>\<open>circuitBreaker\<close> is undefined and
  \<^verbatim>\<open>_isReturnCodeAnError\<close> reads \<^verbatim>\<open>circuitBreaker.errorCodeMap\<close> of it (the response code
  is defined there, it has passed the validation), which throws.
\<close>

definition updateCircuitBreaker ::
  "int \<Rightarrow> string \<Rightarrow> cache \<Rightarrow> flow_params \<Rightarrow> cache \<times> outcome" where
  "updateCircuitBreaker now rid circuitBreakerCache p =
     (if falsy_string (circuitBreakerId p) then
        (circuitBreakerCache, Inl (Error ''Missing required parameter: circuitBreakerId''))
      else if falsy_number (httpResponseCode p) then
        (circuitBreakerCache, Inl (Error ''Missing required parameter: httpResponseCode''))
      else
        (case (circuitBreakerId p, httpResponseCode p) of
           (Some cbid, Some code) \<Rightarrow>
             (case circuitBreakerCache cbid of
                None \<Rightarrow> (circuitBreakerCache, Inl (TypeError ''errorCodeMap''))
              | Some cb \<Rightarrow>
                  (case isReturnCodeAnError cb (Some code) of
                     Inl e \<Rightarrow> (circuitBreakerCache, Inl e)
                   | Inr (True, cb1) \<Rightarrow>
                       (let cb2 = cb1\<lparr>errors := errors cb1 @
                                    [\<lparr>error = rid, timestamp = now,
                                      cause = ''responseCode '' @ number_to_string code\<rparr>]\<rparr>;
                            cb3 = (if status cb2 = Halfopen \<or>
                                      js_ge (Some (int (length (errors cb2))))
                                        (maxErrorCount (params cb2))
                                   then cb2\<lparr>status := Open, openedTimestamp := Some now\<rparr>
                                   else cb2)
                        in (circuitBreakerCache(cbid \<mapsto> cb3), Inr (Next, cb3)))
                   | Inr (False, cb1) \<Rightarrow>
                       (let cb2 = cb1\<lparr>successCount := successCount cb1 + 1\<rparr>
                        in (circuitBreakerCache(cbid \<mapsto> cb2), Inr (Next, cb2)))))
         | _ \<Rightarrow> (circuitBreakerCache, Inl (Error ''Missing required parameter: circuitBreakerId''))))"

section \<open>Sequences of invocations\<close>

text \<open>
  The life of a cache: the two actions called one after the other, each on the cache
  the previous one left. The core never deletes an entry, but the store does: the cache
  is created with \<^verbatim>\<open>stdTTL: 3600\<close>, and an entry whose time to live has run out is gone at
  the next read. When the store drops an entry is the store's affair; the model takes it
  as an event \<open>Evict\<close> that may stand anywhere between two calls.
\<close>

datatype call = Check int flow_params | Update int string flow_params | Evict string

fun run :: "cache \<Rightarrow> call list \<Rightarrow> cache" where
  "run c [] = c"
| "run c (Check now p # cs) = run (fst (configCheckCircuitBreaker now c p)) cs"
| "run c (Update now rid p # cs) = run (fst (updateCircuitBreaker now rid c p)) cs"
| "run c (Evict k # cs) = run (c(k := None)) cs"

section \<open>What the specification says, as definitions\<close>

text \<open>The table of defaults of the specification, and "supplied merged over defaults".\<close>

definition spec_defaults :: flow_params where
  "spec_defaults =
     \<lparr>circuitBreakerId = None, httpResponseCode = None, maxErrorCount = Some 10,
      timeRange = Some 300, halfOpenSuccesses = Some 5, recoverPeriod = Some 30,
      communicationError = Some True, returnCodes = Some ''[300-999]'',
      maxResponseTime = Some 100\<rparr>"

fun or_else :: "'a option \<Rightarrow> 'a option \<Rightarrow> 'a option" where
  "or_else (Some v) d = Some v"
| "or_else None d = d"

definition spec_merge :: "flow_params \<Rightarrow> flow_params \<Rightarrow> flow_params" where
  "spec_merge supplied d =
     \<lparr>circuitBreakerId = or_else (circuitBreakerId supplied) (circuitBreakerId d),
      httpResponseCode = or_else (httpResponseCode supplied) (httpResponseCode d),
      maxErrorCount = or_else (maxErrorCount supplied) (maxErrorCount d),
      timeRange = or_else (timeRange supplied) (timeRange d),
      halfOpenSuccesses = or_else (halfOpenSuccesses supplied) (halfOpenSuccesses d),
      recoverPeriod = or_else (recoverPeriod supplied) (recoverPeriod d),
      communicationError = or_else (communicationError supplied) (communicationError d),
      returnCodes = or_else (returnCodes supplied) (returnCodes d),
      maxResponseTime = or_else (maxResponseTime supplied) (maxResponseTime d)\<rparr>"

text \<open>
  The pruning of the specification: the entries older than the window go, the others
  stay in their order.
\<close>

definition spec_prune :: "error_event list \<Rightarrow> int \<Rightarrow> int \<Rightarrow> error_event list" where
  "spec_prune errs timeRangeSeconds now =
     filter (\<lambda>e. now - timeRangeSeconds * 1000 \<le> timestamp e) errs"

text \<open>
  The grammar of \<^verbatim>\<open>returnCodes\<close> in the specification: tokens separated by commas, each an
  integer literal or a range \<^verbatim>\<open>lo-hi\<close> of two integer literals, with optional brackets,
  white space around the token and around the hyphen being ignored. An integer literal
  is a sequence of decimal digits whose value is a safe integer (the hyphen is the
  separator of a range, so a literal has no sign). \<open>spec_token\<close> reads one token of that
  grammar, \<open>None\<close> when the text is not one.
\<close>

datatype spec_token = ExactTok int | RangeTok int int

definition is_int_literal :: "string \<Rightarrow> bool" where
  "is_int_literal s = (s \<noteq> [] \<and> list_all is_digit s \<and> safe_integer (dec_value s 0))"

definition spec_unbracket :: "string \<Rightarrow> string" where
  "spec_unbracket t =
     (let t1 = (case t of [] \<Rightarrow> [] | c # cs \<Rightarrow> if c = CHR ''['' then cs else t)
      in if t1 \<noteq> [] \<and> last t1 = CHR '']'' then butlast t1 else t1)"

definition spec_token :: "string \<Rightarrow> spec_token option" where
  "spec_token field =
     (let t = trim field in
      if is_int_literal t then Some (ExactTok (dec_value t 0))
      else (case split_on CHR ''-'' (spec_unbracket t) of
              [lo, hi] \<Rightarrow>
                if is_int_literal (trim lo) \<and> is_int_literal (trim hi)
                then Some (RangeTok (dec_value (trim lo) 0) (dec_value (trim hi) 0))
                else None
            | _ \<Rightarrow> None))"

fun token_matches :: "spec_token \<Rightarrow> int \<Rightarrow> bool" where
  "token_matches (ExactTok n) code = (code = n)"
| "token_matches (RangeTok lo hi) code = (lo \<le> code \<and> code \<le> hi)"

definition spec_wellformed :: "string \<Rightarrow> bool" where
  "spec_wellformed spec = list_all (\<lambda>f. spec_token f \<noteq> None) (split_on CHR '','' spec)"

definition spec_is_error :: "string \<Rightarrow> int \<Rightarrow> bool" where
  "spec_is_error spec code =
     list_ex (\<lambda>f. case spec_token f of None \<Rightarrow> False | Some t \<Rightarrow> token_matches t code)
       (split_on CHR '','' spec)"

text \<open>The boolean that \<^verbatim>\<open>_isReturnCodeAnError\<close> returns for a code, \<open>None\<close> when it throws.\<close>

definition classify :: "circuit_breaker \<Rightarrow> int \<Rightarrow> bool option" where
  "classify cb code =
     (case isReturnCodeAnError cb (Some code) of Inl e \<Rightarrow> None | Inr (r, cb1) \<Rightarrow> Some r)"

text \<open>
  The entries of a breaker's \<^verbatim>\<open>errorCodeMap\<close> are what the loop over its own
  \<^verbatim>\<open>returnCodes\<close> computes: the invariant of every breaker the two actions build.
\<close>

definition cache_consistent :: "circuit_breaker \<Rightarrow> bool" where
  "cache_consistent cb =
     (\<forall>code v. errorCodeMap cb code = Some v \<longrightarrow>
        (\<exists>spec. returnCodes (params cb) = Some spec \<and>
                v = match_fields code (split_on CHR '','' spec)))"

section \<open>Concrete breakers for the examples\<close>

definition demo_params :: flow_params where
  "demo_params =
     \<lparr>circuitBreakerId = Some ''b1'', httpResponseCode = None, maxErrorCount = Some 2,
      timeRange = Some 10, halfOpenSuccesses = Some 3, recoverPeriod = Some 30,
      communicationError = None, returnCodes = Some ''[300-500], 999'',
      maxResponseTime = None\<rparr>"

definition demo_update :: "int \<Rightarrow> flow_params" where
  "demo_update code = demo_params\<lparr>httpResponseCode := Some code\<rparr>"

definition demo_event :: "int \<Rightarrow> error_event" where
  "demo_event t = \<lparr>error = ''id'', timestamp = t, cause = ''responseCode 500''\<rparr>"

definition demo_breaker ::
  "status \<Rightarrow> error_event list \<Rightarrow> int \<Rightarrow> int option \<Rightarrow> circuit_breaker" where
  "demo_breaker st errs sc opened =
     \<lparr>status = st, output = Next, errors = errs, successCount = sc,
      errorCodeMap = Map.empty, params = setDefaultParams demo_params,
      openedTimestamp = opened\<rparr>"

section \<open>Frame properties of the handlers\<close>

lemma handleHalfopenStatus_params:
  "params (fst (handleHalfopenStatus cb lg)) = params cb"
  by (simp add: handleHalfopenStatus_def Let_def split: option.splits)

lemma handleHalfopenStatus_errorCodeMap:
  "errorCodeMap (fst (handleHalfopenStatus cb lg)) = errorCodeMap cb"
  by (simp add: handleHalfopenStatus_def Let_def split: option.splits)

lemma handleOpenStatus_params:
  "params (fst (handleOpenStatus now cb lg)) = params cb"
  by (simp add: handleOpenStatus_def Let_def handleHalfopenStatus_params)

lemma handleOpenStatus_errorCodeMap:
  "errorCodeMap (fst (handleOpenStatus now cb lg)) = errorCodeMap cb"
  by (simp add: handleOpenStatus_def Let_def handleHalfopenStatus_errorCodeMap)

lemma check_existing_keeps:
  assumes "circuitBreakerCache cbid = Some cb"
    and "circuitBreakerId p = Some cbid" and "cbid \<noteq> []"
  shows "\<exists>cb'. fst (configCheckCircuitBreaker now circuitBreakerCache p) cbid = Some cb' \<and>
               params cb' = params cb \<and> errorCodeMap cb' = errorCodeMap cb"
  using assms
  by (cases "status cb")
     (simp_all add: configCheckCircuitBreaker_def Let_def handleClosedStatus_def
        handleOpenStatus_params handleHalfopenStatus_params
        handleOpenStatus_errorCodeMap handleHalfopenStatus_errorCodeMap
        split: option.splits)

lemma check_other_id:
  assumes "circuitBreakerId p \<noteq> Some cbid"
  shows "fst (configCheckCircuitBreaker now circuitBreakerCache p) cbid = circuitBreakerCache cbid"
  using assms
  by (auto simp: configCheckCircuitBreaker_def Let_def split: option.splits)

lemma or_else_None: "or_else x None = x"
  by (cases x) simp_all

lemma or_else_case: "(case x of None \<Rightarrow> Some d | Some v \<Rightarrow> Some v) = or_else x (Some d)"
  by (cases x) simp_all

lemma setDefaultParams_merge: "setDefaultParams p = spec_merge p spec_defaults"
  by (cases p)
     (simp add: setDefaultParams_def spec_merge_def spec_defaults_def or_else_None or_else_case)

lemma check_new:
  assumes "circuitBreakerId p = Some cbid" and "cbid \<noteq> []"
    and "circuitBreakerCache cbid = None"
  shows "configCheckCircuitBreaker now circuitBreakerCache p =
     (let cb = \<lparr>status = Closed, output = Next, errors = [], successCount = 0,
                 errorCodeMap = Map.empty, params = spec_merge p spec_defaults,
                 openedTimestamp = None\<rparr>
      in (circuitBreakerCache(cbid \<mapsto> cb), Inr (Next, cb)))"
  using assms
  by (simp add: configCheckCircuitBreaker_def Let_def handleClosedStatus_def setDefaultParams_merge)

section \<open>The classification cache\<close>

lemma isReturnCodeAnError_hit:
  "errorCodeMap cb code = Some v \<Longrightarrow> isReturnCodeAnError cb (Some code) = Inr (v, cb)"
  by (simp add: isReturnCodeAnError_def)

lemma isReturnCodeAnError_written:
  "isReturnCodeAnError cb (Some code) = Inr (r, cb1) \<Longrightarrow> errorCodeMap cb1 code = Some r"
  by (auto simp: isReturnCodeAnError_def Let_def split: option.splits)

lemma isReturnCodeAnError_no_Error:
  "isReturnCodeAnError cb code_opt \<noteq> Inl (Error m)"
  by (simp add: isReturnCodeAnError_def Let_def split: option.splits)

lemma isReturnCodeAnError_keeps:
  assumes "isReturnCodeAnError cb code_opt = Inr (r, cb1)" and "errorCodeMap cb c = Some v"
  shows "errorCodeMap cb1 c = Some v \<and> params cb1 = params cb \<and> status cb1 = status cb"
  using assms
  by (auto simp: isReturnCodeAnError_def Let_def split: option.splits)

lemma isReturnCodeAnError_frame:
  assumes "isReturnCodeAnError cb code_opt = Inr (r, cb1)"
  shows "params cb1 = params cb \<and> status cb1 = status cb"
  using assms
  by (auto simp: isReturnCodeAnError_def Let_def split: option.splits)

lemma update_other_id:
  assumes "circuitBreakerId p \<noteq> Some cbid"
  shows "fst (updateCircuitBreaker now rid circuitBreakerCache p) cbid = circuitBreakerCache cbid"
  using assms
  by (auto simp: updateCircuitBreaker_def Let_def split: option.splits sum.splits bool.splits prod.splits)

lemma update_existing_keeps:
  assumes "circuitBreakerCache cbid = Some cb" and "errorCodeMap cb c = Some v"
  shows "\<exists>cb'. fst (updateCircuitBreaker now rid circuitBreakerCache p) cbid = Some cb' \<and>
               params cb' = params cb \<and> errorCodeMap cb' c = Some v"
proof (cases "circuitBreakerId p = Some cbid")
  case False
  then show ?thesis using assms by (simp add: update_other_id)
next
  case True
  show ?thesis
  proof (cases "cbid = [] \<or> falsy_number (httpResponseCode p)")
    case True
    then show ?thesis using assms \<open>circuitBreakerId p = Some cbid\<close>
      by (auto simp: updateCircuitBreaker_def)
  next
    case False
    then obtain code where code: "httpResponseCode p = Some code" "code \<noteq> 0"
      by (cases "httpResponseCode p") auto
    show ?thesis
    proof (cases "isReturnCodeAnError cb (Some code)")
      case (Inl e)
      then show ?thesis using assms True False code
        by (simp add: updateCircuitBreaker_def)
    next
      case (Inr rc)
      obtain r cb1 where rc: "rc = (r, cb1)" by (cases rc)
      from Inr rc assms(2) have k: "errorCodeMap cb1 c = Some v \<and> params cb1 = params cb"
        using isReturnCodeAnError_keeps by blast
      show ?thesis using assms(1) True False code Inr rc k
        by (cases r) (simp_all add: updateCircuitBreaker_def Let_def)
    qed
  qed
qed

lemma check_keeps:
  assumes "circuitBreakerCache cbid = Some cb"
  shows "\<exists>cb'. fst (configCheckCircuitBreaker now circuitBreakerCache p) cbid = Some cb' \<and>
               params cb' = params cb \<and> errorCodeMap cb' = errorCodeMap cb"
proof (cases "circuitBreakerId p = Some cbid")
  case False
  then show ?thesis using assms by (simp add: check_other_id)
next
  case True
  show ?thesis
  proof (cases "cbid = []")
    case True
    then show ?thesis using assms \<open>circuitBreakerId p = Some cbid\<close>
      by (simp add: configCheckCircuitBreaker_def)
  next
    case False
    then show ?thesis using assms True by (simp add: check_existing_keeps)
  qed
qed

lemma run_keeps:
  assumes "c cbid = Some cb" and "errorCodeMap cb code = Some v"
    and "Evict cbid \<notin> set calls"
  shows "\<exists>cb'. run c calls cbid = Some cb' \<and> params cb' = params cb \<and>
               errorCodeMap cb' code = Some v"
  using assms
proof (induction calls arbitrary: c cb)
  case Nil
  then show ?case by simp
next
  case (Cons a calls)
  have rest: "Evict cbid \<notin> set calls" using Cons.prems(3) by simp
  show ?case
  proof (cases a)
    case (Evict k)
    then have "k \<noteq> cbid" using Cons.prems(3) by auto
    then have "(c(k := None)) cbid = Some cb" using Cons.prems(1) by simp
    from Cons.IH[where c="c(k := None)" and cb=cb, OF this Cons.prems(2) rest]
    show ?thesis unfolding Evict by (simp only: run.simps)
  next
    case (Check now p)
    from check_keeps[where circuitBreakerCache=c and cbid=cbid and cb=cb and now=now and p=p, OF Cons.prems(1)]
    obtain cb1 where s: "fst (configCheckCircuitBreaker now c p) cbid = Some cb1"
        "params cb1 = params cb" "errorCodeMap cb1 = errorCodeMap cb" by blast
    from Cons.IH[where c="fst (configCheckCircuitBreaker now c p)" and cb=cb1] s Cons.prems(2) rest
    show ?thesis using Check by simp
  next
    case (Update now rid p)
    from update_existing_keeps[where circuitBreakerCache=c and cbid=cbid and cb=cb and c=code and v=v
        and now=now and rid=rid and p=p, OF Cons.prems(1) Cons.prems(2)]
    obtain cb1 where s: "fst (updateCircuitBreaker now rid c p) cbid = Some cb1"
        "params cb1 = params cb" "errorCodeMap cb1 code = Some v" by blast
    from Cons.IH[where c="fst (updateCircuitBreaker now rid c p)" and cb=cb1] s rest
    show ?thesis using Update by simp
  qed
qed

section \<open>What the pruning loop computes\<close>

lemma forEach_splice_takeWhile:
  "length arr - k \<le> n \<Longrightarrow>
   forEach_splice n k start arr =
     take k arr @ takeWhile (\<lambda>e. \<not> js_lt (Some (timestamp e)) start) (drop k arr)"
proof (induction n arbitrary: k arr)
  case 0
  then show ?case by simp
next
  case (Suc n)
  show ?case
  proof (cases "k < length arr")
    case False
    then show ?thesis using Suc.IH[of arr "Suc k"] by simp
  next
    case True
    note k = True
    show ?thesis
    proof (cases "js_lt (Some (timestamp (arr ! k))) start")
      case True
      have "forEach_splice n (Suc k) start (take k arr) = take k arr"
        using Suc.IH[of "take k arr" "Suc k"] k by simp
      moreover have "drop k arr = arr ! k # drop (Suc k) arr"
        using k by (simp add: Cons_nth_drop_Suc)
      ultimately show ?thesis using k True by simp
    next
      case False
      have "forEach_splice n (Suc k) start arr =
              take (Suc k) arr @
              takeWhile (\<lambda>e. \<not> js_lt (Some (timestamp e)) start) (drop (Suc k) arr)"
        using Suc.IH[of arr "Suc k"] Suc.prems by simp
      moreover have "drop k arr = arr ! k # drop (Suc k) arr"
        using k by (simp add: Cons_nth_drop_Suc)
      ultimately show ?thesis using k False by (simp add: take_Suc_conv_app_nth)
    qed
  qed
qed

lemma prune_takeWhile:
  "forEach_splice (length arr) 0 start arr =
     takeWhile (\<lambda>e. \<not> js_lt (Some (timestamp e)) start) arr"
  using forEach_splice_takeWhile[of arr 0 "length arr" start] by simp

section \<open>The parser of the code against the grammar of the specification\<close>

lemma digit_not_ws: "is_digit c \<Longrightarrow> \<not> is_ws c"
  by (auto simp: is_digit_def is_ws_def)

lemma digit_not_sep: "is_digit c \<Longrightarrow> c \<noteq> CHR ''-'' \<and> c \<noteq> CHR ''['' \<and> c \<noteq> CHR '']''"
  by (auto simp: is_digit_def)

lemma ws_not_sep: "is_ws c \<Longrightarrow> c \<noteq> CHR ''-'' \<and> c \<noteq> CHR ''['' \<and> c \<noteq> CHR '']''"
  by (auto simp: is_ws_def)

lemma dropWhile_none: "\<forall>x\<in>set s. \<not> P x \<Longrightarrow> dropWhile P s = s"
  by (cases s) simp_all

lemma trim_digits: "list_all is_digit s \<Longrightarrow> trim s = s"
  by (simp add: trim_def dropWhile_none list_all_iff digit_not_ws)

lemma str_to_number_literal:
  "is_int_literal s \<Longrightarrow> str_to_number s = Some (dec_value s 0)"
  by (simp add: str_to_number_def is_int_literal_def trim_digits)

lemma set_dropWhile_split: "set s \<subseteq> {c. P c} \<union> set (dropWhile P s)"
  by (induction s) auto

lemma set_trim: "set s \<subseteq> {c. is_ws c} \<union> set (trim s)"
proof -
  have "set (dropWhile is_ws s) = set (rev (dropWhile is_ws s))" by simp
  also have "\<dots> \<subseteq> {c. is_ws c} \<union> set (dropWhile is_ws (rev (dropWhile is_ws s)))"
    by (rule set_dropWhile_split)
  finally have "set (dropWhile is_ws s) \<subseteq> {c. is_ws c} \<union> set (trim s)"
    by (simp add: trim_def)
  with set_dropWhile_split[of s is_ws] show ?thesis by blast
qed

lemma split_on_nonempty: "split_on sep s \<noteq> []"
  by (induction s) (auto split: list.splits)

lemma split_on_absent: "sep \<notin> set s \<Longrightarrow> split_on sep s = [s]"
  by (induction s) auto

lemma split_on_present: "sep \<in> set s \<Longrightarrow> 2 \<le> length (split_on sep s)"
proof (induction s)
  case Nil
  then show ?case by simp
next
  case (Cons c cs)
  show ?case
  proof (cases "c = sep")
    case True
    then show ?thesis using split_on_nonempty[of sep cs]
      by (cases "split_on sep cs") simp_all
  next
    case False
    with Cons show ?thesis by (cases "split_on sep cs") auto
  qed
qed

lemma split_on_chars:
  "x \<in> set s \<Longrightarrow> x = sep \<or> (\<exists>p\<in>set (split_on sep s). x \<in> set p)"
proof (induction s)
  case Nil
  then show ?case by simp
next
  case (Cons c cs)
  then show ?case
    using split_on_nonempty[of sep cs]
    by (cases "split_on sep cs") (auto split: if_splits)
qed

lemma remove_brackets_unbracket: "remove_brackets (spec_unbracket t) = remove_brackets t"
proof -
  define t1 where "t1 = (case t of [] \<Rightarrow> [] | c # cs \<Rightarrow> if c = CHR ''['' then cs else t)"
  have a: "remove_brackets t1 = remove_brackets t"
    by (cases t) (simp_all add: t1_def remove_brackets_def)
  have b: "remove_brackets (butlast t1) = remove_brackets t1"
    if "t1 \<noteq> []" "last t1 = CHR '']''"
  proof -
    have "t1 = butlast t1 @ [CHR '']'']" using that by (metis append_butlast_last_id)
    then have "remove_brackets t1 = remove_brackets (butlast t1 @ [CHR '']''])" by simp
    then show ?thesis by (simp add: remove_brackets_def)
  qed
  show ?thesis using a b by (simp add: spec_unbracket_def Let_def t1_def[symmetric])
qed

lemma set_unbracket: "set (spec_unbracket t) \<subseteq> set t"
proof -
  define t1 where "t1 = (case t of [] \<Rightarrow> [] | c # cs \<Rightarrow> if c = CHR ''['' then cs else t)"
  have a: "set t1 \<subseteq> set t" by (cases t) (auto simp: t1_def)
  have b: "set (butlast t1) \<subseteq> set t1" by (auto dest: in_set_butlastD)
  show ?thesis using a b by (auto simp: spec_unbracket_def Let_def t1_def[symmetric])
qed

lemma remove_brackets_none:
  "\<forall>c\<in>set s. c \<noteq> CHR ''['' \<and> c \<noteq> CHR '']'' \<Longrightarrow> remove_brackets s = s"
  by (simp add: remove_brackets_def)

lemma literal_chars: "is_int_literal (trim s) \<Longrightarrow> c \<in> set s \<Longrightarrow> c \<noteq> CHR ''['' \<and> c \<noteq> CHR '']''"
  using set_trim[of s] digit_not_sep ws_not_sep
  by (auto simp: is_int_literal_def list_all_iff)

lemma field_matches_token:
  assumes "spec_token field = Some tok"
  shows "field_matches code field = token_matches tok code"
proof (cases "is_int_literal (trim field)")
  case True
  then have tok: "tok = ExactTok (dec_value (trim field) 0)"
    using assms by (simp add: spec_token_def)
  have "CHR ''-'' \<notin> set (trim field)"
    using True digit_not_sep by (auto simp: is_int_literal_def list_all_iff)
  then show ?thesis
    using True tok by (auto simp: field_matches_def str_to_number_literal)
next
  case False
  define u where "u = spec_unbracket (trim field)"
  from assms False obtain lo hi where
    sp: "split_on CHR ''-'' u = [lo, hi]"
    and lit: "is_int_literal (trim lo)" "is_int_literal (trim hi)"
    and tok: "tok = RangeTok (dec_value (trim lo) 0) (dec_value (trim hi) 0)"
    by (auto simp: spec_token_def Let_def u_def split: list.splits if_splits)
  have "CHR ''-'' \<in> set u"
  proof (rule ccontr)
    assume "CHR ''-'' \<notin> set u"
    then have "split_on CHR ''-'' u = [u]" by (rule split_on_absent)
    with sp show False by simp
  qed
  then have dash: "CHR ''-'' \<in> set (trim field)"
    using set_unbracket[of "trim field"] by (auto simp: u_def)
  have "\<forall>c\<in>set u. c \<noteq> CHR ''['' \<and> c \<noteq> CHR '']''"
  proof
    fix c assume "c \<in> set u"
    then have "c = CHR ''-'' \<or> (\<exists>p\<in>set (split_on CHR ''-'' u). c \<in> set p)"
      by (rule split_on_chars)
    then show "c \<noteq> CHR ''['' \<and> c \<noteq> CHR '']''"
      using sp lit literal_chars by auto
  qed
  then have "remove_brackets u = u" by (rule remove_brackets_none)
  then have rb: "remove_brackets (trim field) = u"
    using remove_brackets_unbracket[of "trim field"] by (simp add: u_def)
  show ?thesis
    using dash rb sp lit tok
    by (simp add: field_matches_def str_to_number_literal trim_digits is_int_literal_def)
qed

lemma match_fields_spec:
  "list_all (\<lambda>f. spec_token f \<noteq> None) fs \<Longrightarrow>
   match_fields code fs =
     list_ex (\<lambda>f. case spec_token f of None \<Rightarrow> False | Some t \<Rightarrow> token_matches t code) fs"
  by (induction fs) (auto simp: field_matches_token)

section \<open>The cache of every breaker the actions build is consistent with its spec\<close>

lemma cache_consistent_cong:
  "params cb' = params cb \<Longrightarrow> errorCodeMap cb' = errorCodeMap cb \<Longrightarrow>
   cache_consistent cb' = cache_consistent cb"
  by (simp add: cache_consistent_def)

lemma cache_consistent_empty: "errorCodeMap cb = Map.empty \<Longrightarrow> cache_consistent cb"
  by (simp add: cache_consistent_def)

lemma isReturnCodeAnError_consistent:
  assumes "cache_consistent cb" and "isReturnCodeAnError cb code_opt = Inr (r, cb1)"
  shows "cache_consistent cb1"
  using assms
  by (auto simp: isReturnCodeAnError_def cache_consistent_def Let_def
      split: option.splits if_splits)

lemma consistent_classify:
  assumes "cache_consistent cb" and "returnCodes (params cb) = Some spec"
  shows "\<exists>cb1. isReturnCodeAnError cb (Some code) =
                 Inr (match_fields code (split_on CHR '','' spec), cb1)"
  using assms
  by (auto simp: isReturnCodeAnError_def cache_consistent_def Let_def split: option.splits)

lemma check_result_cases:
  assumes "fst (configCheckCircuitBreaker now c p) cbid = Some cb'"
  shows "(\<exists>cb. c cbid = Some cb \<and> params cb' = params cb \<and> errorCodeMap cb' = errorCodeMap cb)
         \<or> errorCodeMap cb' = Map.empty"
proof (cases "c cbid")
  case (Some cb)
  from check_keeps[where circuitBreakerCache=c and cbid=cbid and cb=cb and now=now and p=p, OF Some]
  show ?thesis using assms Some by auto
next
  case None
  show ?thesis
  proof (cases "circuitBreakerId p = Some cbid \<and> cbid \<noteq> []")
    case True
    then show ?thesis using check_new[of p cbid c now] None assms by (auto simp: Let_def)
  next
    case False
    have "fst (configCheckCircuitBreaker now c p) cbid = c cbid"
    proof (cases "circuitBreakerId p = Some cbid")
      case True
      with False show ?thesis by (simp add: configCheckCircuitBreaker_def)
    next
      case False
      then show ?thesis by (rule check_other_id)
    qed
    then show ?thesis using None assms by simp
  qed
qed

lemma update_result_cases:
  assumes "fst (updateCircuitBreaker now rid c p) cbid = Some cb'"
  shows "\<exists>cb. c cbid = Some cb \<and>
           (cb' = cb \<or> (\<exists>code r cb1. isReturnCodeAnError cb (Some code) = Inr (r, cb1) \<and>
                          params cb' = params cb1 \<and> errorCodeMap cb' = errorCodeMap cb1))"
proof (cases "circuitBreakerId p = Some cbid")
  case False
  then show ?thesis using assms by (simp add: update_other_id)
next
  case True
  show ?thesis
  proof (cases "cbid = [] \<or> falsy_number (httpResponseCode p)")
    case True
    then have "fst (updateCircuitBreaker now rid c p) = c"
      using \<open>circuitBreakerId p = Some cbid\<close> by (auto simp: updateCircuitBreaker_def)
    then show ?thesis using assms by simp
  next
    case False
    then obtain code where code: "httpResponseCode p = Some code" "code \<noteq> 0"
      by (cases "httpResponseCode p") auto
    show ?thesis
    proof (cases "c cbid")
      case None
      then show ?thesis using assms True False code by (simp add: updateCircuitBreaker_def)
    next
      case (Some cb)
      show ?thesis
      proof (cases "isReturnCodeAnError cb (Some code)")
        case (Inl e)
        then show ?thesis using assms Some True False code
          by (simp add: updateCircuitBreaker_def)
      next
        case (Inr rc)
        obtain r cb1 where rc: "rc = (r, cb1)" by (cases rc)
        have "params cb' = params cb1 \<and> errorCodeMap cb' = errorCodeMap cb1"
          using assms Some True False code Inr rc
          by (cases r) (auto simp: updateCircuitBreaker_def Let_def)
        then show ?thesis using Some Inr rc by blast
      qed
    qed
  qed
qed

lemma check_consistent:
  assumes "\<forall>k cb. c k = Some cb \<longrightarrow> cache_consistent cb"
    and "fst (configCheckCircuitBreaker now c p) cbid = Some cb'"
  shows "cache_consistent cb'"
proof -
  from check_result_cases[OF assms(2)]
  consider cb where "c cbid = Some cb" "params cb' = params cb" "errorCodeMap cb' = errorCodeMap cb"
    | "errorCodeMap cb' = Map.empty"
    by blast
  then show ?thesis
  proof cases
    case 1
    from assms(1) 1(1) have "cache_consistent cb" by blast
    then show ?thesis using cache_consistent_cong[OF 1(2) 1(3)] by simp
  next
    case 2
    then show ?thesis by (rule cache_consistent_empty)
  qed
qed

lemma update_consistent:
  assumes "\<forall>k cb. c k = Some cb \<longrightarrow> cache_consistent cb"
    and "fst (updateCircuitBreaker now rid c p) cbid = Some cb'"
  shows "cache_consistent cb'"
proof -
  from update_result_cases[OF assms(2)] obtain cb where cb: "c cbid = Some cb"
    and d: "cb' = cb \<or> (\<exists>code r cb1. isReturnCodeAnError cb (Some code) = Inr (r, cb1) \<and>
                          params cb' = params cb1 \<and> errorCodeMap cb' = errorCodeMap cb1)"
    by blast
  have ok: "cache_consistent cb" using assms(1) cb by blast
  from d show ?thesis
  proof
    assume "cb' = cb"
    with ok show ?thesis by simp
  next
    assume "\<exists>code r cb1. isReturnCodeAnError cb (Some code) = Inr (r, cb1) \<and>
                          params cb' = params cb1 \<and> errorCodeMap cb' = errorCodeMap cb1"
    then obtain code r cb1 where e: "isReturnCodeAnError cb (Some code) = Inr (r, cb1)"
      and f: "params cb' = params cb1" "errorCodeMap cb' = errorCodeMap cb1" by blast
    have "cache_consistent cb1" using ok e by (rule isReturnCodeAnError_consistent)
    then show ?thesis using cache_consistent_cong[OF f] by simp
  qed
qed

lemma run_consistent:
  assumes "\<forall>k cb. c k = Some cb \<longrightarrow> cache_consistent cb"
  shows "\<forall>k cb. run c calls k = Some cb \<longrightarrow> cache_consistent cb"
  using assms
proof (induction calls arbitrary: c)
  case Nil
  then show ?case by simp
next
  case (Cons a calls)
  show ?case
  proof (cases a)
    case (Check now p)
    have "\<forall>k cb. fst (configCheckCircuitBreaker now c p) k = Some cb \<longrightarrow> cache_consistent cb"
      using check_consistent[OF Cons.prems] by blast
    from Cons.IH[OF this] show ?thesis using Check by simp
  next
    case (Update now rid p)
    have "\<forall>k cb. fst (updateCircuitBreaker now rid c p) k = Some cb \<longrightarrow> cache_consistent cb"
      using update_consistent[OF Cons.prems] by blast
    from Cons.IH[OF this] show ?thesis using Update by simp
  next
    case (Evict j)
    have "\<forall>k cb. (c(j := None)) k = Some cb \<longrightarrow> cache_consistent cb"
      using Cons.prems by (simp split: if_splits)
    from Cons.IH[OF this] show ?thesis unfolding Evict by (simp only: run.simps)
  qed
qed

lemma reachable_consistent: "run Map.empty calls cbid = Some cb \<Longrightarrow> cache_consistent cb"
  using run_consistent[of Map.empty calls] by simp

lemma spec_is_error_match:
  "spec_wellformed spec \<Longrightarrow> match_fields code (split_on CHR '','' spec) = spec_is_error spec code"
  by (simp add: spec_wellformed_def spec_is_error_def match_fields_spec)

section \<open>Which exceptions the actions throw\<close>

lemma handleHalfopenStatus_no_Error: "snd (handleHalfopenStatus cb lg) \<noteq> Some (Error m)"
  by (simp add: handleHalfopenStatus_def Let_def split: option.splits)

lemma handleOpenStatus_no_Error: "snd (handleOpenStatus now cb lg) \<noteq> Some (Error m)"
  by (simp add: handleOpenStatus_def Let_def handleHalfopenStatus_no_Error)

lemma check_valid_no_Error:
  assumes "\<not> falsy_string (circuitBreakerId p)"
  shows "snd (configCheckCircuitBreaker now c p) \<noteq> Inl (Error m)"
proof -
  from assms obtain cbid where i: "circuitBreakerId p = Some cbid" "cbid \<noteq> []"
    by (cases "circuitBreakerId p") auto
  define cb0 where "cb0 = (case c cbid of
       None \<Rightarrow> \<lparr>status = Closed, output = Next, errors = [], successCount = 0,
                 errorCodeMap = Map.empty, params = setDefaultParams p, openedTimestamp = None\<rparr>
     | Some cb \<Rightarrow> cb)"
  show ?thesis
    using i handleHalfopenStatus_no_Error[of cb0 "Some Logger" m]
      handleOpenStatus_no_Error[of now cb0 Logger m]
    by (cases "status cb0")
       (auto simp: configCheckCircuitBreaker_def Let_def cb0_def[symmetric] split: option.splits)
qed

lemma update_valid_no_Error:
  assumes "\<not> falsy_string (circuitBreakerId p)" and "\<not> falsy_number (httpResponseCode p)"
  shows "snd (updateCircuitBreaker now rid c p) \<noteq> Inl (Error m)"
proof -
  from assms obtain cbid code where i: "circuitBreakerId p = Some cbid" "cbid \<noteq> []"
      "httpResponseCode p = Some code" "code \<noteq> 0"
    by (cases "circuitBreakerId p"; cases "httpResponseCode p") auto
  show ?thesis
  proof (cases "c cbid")
    case None
    then show ?thesis using i by (simp add: updateCircuitBreaker_def)
  next
    case (Some cb)
    show ?thesis
    proof (cases "isReturnCodeAnError cb (Some code)")
      case (Inl e)
      then have "e \<noteq> Error m" using isReturnCodeAnError_no_Error[of cb "Some code" m] by auto
      then show ?thesis using i Some Inl by (simp add: updateCircuitBreaker_def)
    next
      case (Inr rc)
      obtain r cb1 where "rc = (r, cb1)" by (cases rc)
      then show ?thesis using i Some Inr
        by (cases r) (simp_all add: updateCircuitBreaker_def Let_def)
    qed
  qed
qed

text \<open>
  The one exception a check can throw after the validation: \<^verbatim>\<open>_handleOpenStatus\<close> calls
  \<^verbatim>\<open>_handleHalfopenStatus(circuitBreaker)\<close> without the logger, so when the recovery
  period has elapsed and halfOpenSuccesses is not above 0, the branch that would close
  the breaker throws on \<^verbatim>\<open>logger.debug\<close>; the breaker is left halfopen.
\<close>

lemma open_recovery_without_logger:
  assumes "circuitBreakerId p = Some cbid" and "cbid \<noteq> []"
    and "circuitBreakerCache cbid = Some cb" and "status cb = Open"
    and "openedTimestamp cb = Some t" and "recoverPeriod (params cb) = Some rp"
    and "rp * 1000 < now - t" and "halfOpenSuccesses (params cb) = Some h" and "h \<le> 0"
  shows "configCheckCircuitBreaker now circuitBreakerCache p =
           (circuitBreakerCache(cbid \<mapsto> cb\<lparr>status := Halfopen, successCount := 0, output := Next\<rparr>),
            Inl (TypeError ''debug''))"
  using assms
  by (simp add: configCheckCircuitBreaker_def handleOpenStatus_def handleHalfopenStatus_def Let_def)

section \<open>Evaluation on the concrete breakers\<close>

lemma demo_fields: "split_on CHR '','' ''[300-500], 999'' = [''[300-500]'', '' 999'']"
  by code_simp

lemma demo_match_307: "match_fields 307 [''[300-500]'', '' 999''] = True"
  by code_simp

lemma demo_match_500: "match_fields 500 [''[300-500]'', '' 999''] = True"
  by code_simp

lemma demo_match_999: "match_fields 999 [''[300-500]'', '' 999''] = True"
  by code_simp

lemma demo_match_600: "match_fields 600 [''[300-500]'', '' 999''] = False"
  by code_simp

lemma demo_match_200: "match_fields 200 [''[300-500]'', '' 999''] = False"
  by code_simp

lemma demo_number_500: "number_to_string 500 = ''500''"
  by code_simp

lemma demo_isReturnCodeAnError:
  "isReturnCodeAnError (demo_breaker st errs sc opened) (Some code) =
     Inr (match_fields code [''[300-500]'', '' 999''],
          (demo_breaker st errs sc opened)
            \<lparr>errorCodeMap := [code \<mapsto> match_fields code [''[300-500]'', '' 999'']]\<rparr>)"
  unfolding isReturnCodeAnError_def demo_breaker_def demo_params_def setDefaultParams_def Let_def
  by (simp only: demo_fields circuit_breaker.simps flow_params.simps option.simps)

lemma demo_wellformed: "spec_wellformed ''[300-500], 999''"
  by code_simp

lemma isReturnCodeAnError_fields:
  assumes "isReturnCodeAnError cb (Some code) = Inr (r, cb1)"
  shows "cb1 = cb\<lparr>errorCodeMap := (errorCodeMap cb)(code \<mapsto> r)\<rparr>"
  using assms
  by (auto simp: isReturnCodeAnError_def Let_def fun_upd_idem split: option.splits)

lemma update_existing_step:
  assumes "circuitBreakerId p = Some cbid" and "cbid \<noteq> []"
    and "httpResponseCode p = Some code" and "code \<noteq> 0"
    and "circuitBreakerCache cbid = Some cb"
    and "isReturnCodeAnError cb (Some code) = Inr (isErr, cb1)"
  shows "updateCircuitBreaker now rid circuitBreakerCache p =
     (let cbm = cb\<lparr>errorCodeMap := (errorCodeMap cb)(code \<mapsto> isErr)\<rparr>;
          cb' = (if isErr then
                   (let cbe = cbm\<lparr>errors := errors cb @
                                [\<lparr>error = rid, timestamp = now,
                                  cause = ''responseCode '' @ number_to_string code\<rparr>]\<rparr>
                    in if status cb = Halfopen \<or>
                          js_ge (Some (int (length (errors cb)) + 1)) (maxErrorCount (params cb))
                       then cbe\<lparr>status := Open, openedTimestamp := Some now\<rparr>
                       else cbe)
                 else cbm\<lparr>successCount := successCount cb + 1\<rparr>)
      in (circuitBreakerCache(cbid \<mapsto> cb'), Inr (Next, cb')))"
proof -
  have cb1: "cb1 = cb\<lparr>errorCodeMap := (errorCodeMap cb)(code \<mapsto> isErr)\<rparr>"
    using assms(6) by (rule isReturnCodeAnError_fields)
  show ?thesis
    using assms(1-5) assms(6)[unfolded cb1]
    by (cases isErr) (simp_all add: updateCircuitBreaker_def Let_def add.commute)
qed

section \<open>The claims\<close>

text \<open>
  Claim C4. A check of a breaker in status halfopen routes to next when successCount is
  even and to open when it is odd, except that with successCount at least
  halfOpenSuccesses the breaker is closed, its errors are emptied and the route is next.
\<close>

theorem check_halfopen:
  assumes "circuitBreakerId p = Some cbid" and "cbid \<noteq> []"
    and "circuitBreakerCache cbid = Some cb" and "status cb = Halfopen"
  shows "configCheckCircuitBreaker now circuitBreakerCache p =
     (let cb' = (if js_ge (Some (successCount cb)) (halfOpenSuccesses (params cb))
                 then cb\<lparr>status := Closed, output := Next, errors := []\<rparr>
                 else if successCount cb mod 2 = 0 then cb\<lparr>output := Next\<rparr>
                 else cb\<lparr>output := OpenOut\<rparr>)
      in (circuitBreakerCache(cbid \<mapsto> cb'), Inr (output cb', cb')))"
  using assms
  by (simp add: configCheckCircuitBreaker_def handleHalfopenStatus_def Let_def)

theorem check_halfopen_witness:
  "configCheckCircuitBreaker 5
      [''b1'' \<mapsto> demo_breaker Halfopen [demo_event 1] 1 (Some 2)] demo_params =
     ([''b1'' \<mapsto> (demo_breaker Halfopen [demo_event 1] 1 (Some 2))\<lparr>output := OpenOut\<rparr>],
      Inr (OpenOut, (demo_breaker Halfopen [demo_event 1] 1 (Some 2))\<lparr>output := OpenOut\<rparr>))
   \<and> configCheckCircuitBreaker 5
      [''b1'' \<mapsto> demo_breaker Halfopen [demo_event 1] 3 (Some 2)] demo_params =
     ([''b1'' \<mapsto> demo_breaker Closed [] 3 (Some 2)],
      Inr (Next, demo_breaker Closed [] 3 (Some 2)))"
  using check_halfopen[of demo_params "''b1''"
      "[''b1'' \<mapsto> demo_breaker Halfopen [demo_event 1] 1 (Some 2)]"
      "demo_breaker Halfopen [demo_event 1] 1 (Some 2)" 5]
    check_halfopen[of demo_params "''b1''"
      "[''b1'' \<mapsto> demo_breaker Halfopen [demo_event 1] 3 (Some 2)]"
      "demo_breaker Halfopen [demo_event 1] 3 (Some 2)" 5]
  by (simp add: demo_params_def demo_breaker_def setDefaultParams_def Let_def)

text \<open>
  Claim C9, as the code has it. An update with a valid identifier and response code for
  which the cache has no breaker throws a TypeError (the read of \<^verbatim>\<open>errorCodeMap\<close> of
  the undefined breaker) and leaves the cache as it was.
\<close>

theorem update_unknown_identifier:
  assumes "circuitBreakerId p = Some cbid" and "cbid \<noteq> []"
    and "httpResponseCode p = Some code" and "code \<noteq> 0"
    and "circuitBreakerCache cbid = None"
  shows "updateCircuitBreaker now rid circuitBreakerCache p =
           (circuitBreakerCache, Inl (TypeError ''errorCodeMap''))"
  using assms by (simp add: updateCircuitBreaker_def)

theorem update_unknown_identifier_witness:
  "updateCircuitBreaker 5 ''id'' [''b2'' \<mapsto> demo_breaker Closed [] 0 None] (demo_update 500) =
     ([''b2'' \<mapsto> demo_breaker Closed [] 0 None], Inl (TypeError ''errorCodeMap''))"
  using update_unknown_identifier[of "demo_update 500" "''b1''" 500
      "[''b2'' \<mapsto> demo_breaker Closed [] 0 None]" 5 "''id''"]
  by (simp add: demo_update_def demo_params_def)

theorem update_unknown_raises_counterexample:
  "snd (updateCircuitBreaker 5 ''id'' Map.empty (demo_update 500)) = Inl (TypeError ''errorCodeMap'')"
  by (simp add: updateCircuitBreaker_def demo_update_def demo_params_def)

text \<open>
  Claim C10. Whatever the parameters, an update leaves the status of an existing
  breaker as it was or sets it to open: it never closes a breaker and never makes it
  halfopen.
\<close>

theorem update_only_opens:
  assumes "circuitBreakerCache cbid = Some cb"
  shows "\<exists>cb'. fst (updateCircuitBreaker now rid circuitBreakerCache p) cbid = Some cb' \<and>
               (status cb' = status cb \<or> status cb' = Open)"
proof (cases "circuitBreakerId p = Some cbid")
  case False
  then show ?thesis using assms by (simp add: update_other_id)
next
  case True
  show ?thesis
  proof (cases "cbid = [] \<or> falsy_number (httpResponseCode p)")
    case True
    then have "fst (updateCircuitBreaker now rid circuitBreakerCache p) = circuitBreakerCache"
      using \<open>circuitBreakerId p = Some cbid\<close> by (auto simp: updateCircuitBreaker_def)
    then show ?thesis using assms by simp
  next
    case False
    then obtain code where code: "httpResponseCode p = Some code" "code \<noteq> 0"
      by (cases "httpResponseCode p") auto
    show ?thesis
    proof (cases "isReturnCodeAnError cb (Some code)")
      case (Inl e)
      then show ?thesis using assms True False code
        by (simp add: updateCircuitBreaker_def)
    next
      case (Inr rc)
      obtain r cb1 where rc: "rc = (r, cb1)" by (cases rc)
      have ne: "cbid \<noteq> []" using False by simp
      show ?thesis
        using update_existing_step[where circuitBreakerCache=circuitBreakerCache and cb=cb
            and p=p and cbid=cbid and code=code and isErr=r and ?cb1.0=cb1 and now=now and rid=rid,
            OF True ne code assms Inr[unfolded rc]]
        by (simp add: Let_def)
    qed
  qed
qed

theorem update_only_opens_witness:
  "\<exists>cb'. fst (updateCircuitBreaker 7 ''id''
                [''b1'' \<mapsto> demo_breaker Closed [demo_event 1] 0 None] (demo_update 500)) ''b1''
            = Some cb' \<and> (status cb' = Closed \<or> status cb' = Open)"
  using update_only_opens[of "[''b1'' \<mapsto> demo_breaker Closed [demo_event 1] 0 None]" "''b1''"
      "demo_breaker Closed [demo_event 1] 0 None" 7 "''id''" "demo_update 500"]
  by (simp add: demo_breaker_def)

text \<open>
  Claim C3, as the code has it. A check throws the error "Missing required parameter"
  exactly when the identifier is undefined or empty. An update throws it exactly when
  the identifier is undefined or empty, or the response code is undefined or 0 (the
  test is \<^verbatim>\<open>!httpResponseCode\<close>). The message names the first parameter that is missing,
  the cache is returned as it was, and the outcome is the same for every cache: no
  breaker is read.
\<close>

theorem missing_parameter:
  "((\<exists>m. snd (configCheckCircuitBreaker now c p) = Inl (Error m))
      = falsy_string (circuitBreakerId p))
   \<and> (falsy_string (circuitBreakerId p) \<longrightarrow>
        configCheckCircuitBreaker now c p =
          (c, Inl (Error ''Missing required parameter: circuitBreakerId'')))
   \<and> ((\<exists>m. snd (updateCircuitBreaker now rid c p) = Inl (Error m))
      = (falsy_string (circuitBreakerId p) \<or> falsy_number (httpResponseCode p)))
   \<and> (falsy_string (circuitBreakerId p) \<longrightarrow>
        updateCircuitBreaker now rid c p =
          (c, Inl (Error ''Missing required parameter: circuitBreakerId'')))
   \<and> (\<not> falsy_string (circuitBreakerId p) \<longrightarrow> falsy_number (httpResponseCode p) \<longrightarrow>
        updateCircuitBreaker now rid c p =
          (c, Inl (Error ''Missing required parameter: httpResponseCode'')))"
proof -
  have a: "configCheckCircuitBreaker now c p =
          (c, Inl (Error ''Missing required parameter: circuitBreakerId''))"
    if "falsy_string (circuitBreakerId p)"
    using that by (simp add: configCheckCircuitBreaker_def)
  have b: "updateCircuitBreaker now rid c p =
          (c, Inl (Error ''Missing required parameter: circuitBreakerId''))"
    if "falsy_string (circuitBreakerId p)"
    using that by (simp add: updateCircuitBreaker_def)
  have d: "updateCircuitBreaker now rid c p =
          (c, Inl (Error ''Missing required parameter: httpResponseCode''))"
    if "\<not> falsy_string (circuitBreakerId p)" "falsy_number (httpResponseCode p)"
    using that by (simp add: updateCircuitBreaker_def)
  have e: "(\<exists>m. snd (configCheckCircuitBreaker now c p) = Inl (Error m))
      = falsy_string (circuitBreakerId p)"
    using a check_valid_no_Error[of p now c] by (cases "falsy_string (circuitBreakerId p)") auto
  have f: "(\<exists>m. snd (updateCircuitBreaker now rid c p) = Inl (Error m))
      = (falsy_string (circuitBreakerId p) \<or> falsy_number (httpResponseCode p))"
  proof (cases "falsy_string (circuitBreakerId p)")
    case True
    then show ?thesis using b by simp
  next
    case False
    note nf = False
    show ?thesis
    proof (cases "falsy_number (httpResponseCode p)")
      case True
      then show ?thesis using d nf by simp
    next
      case False
      then show ?thesis using nf update_valid_no_Error[of p now rid c] by simp
    qed
  qed
  from a b d e f show ?thesis by blast
qed

theorem missing_parameter_witness:
  "configCheckCircuitBreaker 5 [''b1'' \<mapsto> demo_breaker Open [] 0 (Some 1)]
       (demo_params\<lparr>circuitBreakerId := Some []\<rparr>) =
     ([''b1'' \<mapsto> demo_breaker Open [] 0 (Some 1)],
      Inl (Error ''Missing required parameter: circuitBreakerId''))
   \<and> updateCircuitBreaker 5 ''id'' [''b1'' \<mapsto> demo_breaker Open [] 0 (Some 1)]
       (demo_params\<lparr>circuitBreakerId := None, httpResponseCode := Some 500\<rparr>) =
     ([''b1'' \<mapsto> demo_breaker Open [] 0 (Some 1)],
      Inl (Error ''Missing required parameter: circuitBreakerId''))
   \<and> updateCircuitBreaker 5 ''id'' [''b1'' \<mapsto> demo_breaker Open [] 0 (Some 1)] demo_params =
     ([''b1'' \<mapsto> demo_breaker Open [] 0 (Some 1)],
      Inl (Error ''Missing required parameter: httpResponseCode''))"
  using missing_parameter[of 5 "[''b1'' \<mapsto> demo_breaker Open [] 0 (Some 1)]"
      "demo_params\<lparr>circuitBreakerId := Some []\<rparr>" "''id''"]
    missing_parameter[of 5 "[''b1'' \<mapsto> demo_breaker Open [] 0 (Some 1)]"
      "demo_params\<lparr>circuitBreakerId := None, httpResponseCode := Some 500\<rparr>" "''id''"]
    missing_parameter[of 5 "[''b1'' \<mapsto> demo_breaker Open [] 0 (Some 1)]" demo_params "''id''"]
  by (simp add: demo_params_def)

theorem missing_parameter_zero_code_counterexample:
  "httpResponseCode (demo_update 0) = Some 0
   \<and> circuitBreakerId (demo_update 0) = Some ''b1''
   \<and> updateCircuitBreaker 5 ''id'' [''b1'' \<mapsto> demo_breaker Closed [] 0 None] (demo_update 0) =
       ([''b1'' \<mapsto> demo_breaker Closed [] 0 None],
        Inl (Error ''Missing required parameter: httpResponseCode''))"
  by (simp add: updateCircuitBreaker_def demo_update_def demo_params_def)

text \<open>
  Claim C8. A check for an identifier that the cache does not hold stores and returns a
  breaker with status closed, no errors, successCount 0 and, as params, the supplied
  params merged over the defaults (maxErrorCount 10, timeRange 300, halfOpenSuccesses 5,
  recoverPeriod 30, returnCodes "[300-999]", maxResponseTime 100, communicationError
  true). A check for an identifier that the cache holds leaves the params of the stored
  breaker as they were, whatever params the call supplies.
\<close>

theorem check_creates_with_defaults:
  assumes "circuitBreakerId p = Some cbid" and "cbid \<noteq> []"
  shows "(circuitBreakerCache cbid = None \<longrightarrow>
            configCheckCircuitBreaker now circuitBreakerCache p =
              (let cb = \<lparr>status = Closed, output = Next, errors = [], successCount = 0,
                          errorCodeMap = Map.empty, params = spec_merge p spec_defaults,
                          openedTimestamp = None\<rparr>
               in (circuitBreakerCache(cbid \<mapsto> cb), Inr (Next, cb))))
       \<and> maxErrorCount (spec_merge p spec_defaults) = or_else (maxErrorCount p) (Some 10)
       \<and> timeRange (spec_merge p spec_defaults) = or_else (timeRange p) (Some 300)
       \<and> halfOpenSuccesses (spec_merge p spec_defaults) = or_else (halfOpenSuccesses p) (Some 5)
       \<and> recoverPeriod (spec_merge p spec_defaults) = or_else (recoverPeriod p) (Some 30)
       \<and> returnCodes (spec_merge p spec_defaults) = or_else (returnCodes p) (Some ''[300-999]'')
       \<and> maxResponseTime (spec_merge p spec_defaults) = or_else (maxResponseTime p) (Some 100)
       \<and> communicationError (spec_merge p spec_defaults)
           = or_else (communicationError p) (Some True)
       \<and> (\<forall>cb. circuitBreakerCache cbid = Some cb \<longrightarrow>
            (\<exists>cb'. fst (configCheckCircuitBreaker now circuitBreakerCache p) cbid = Some cb' \<and>
                   params cb' = params cb))"
proof -
  have new: "circuitBreakerCache cbid = None \<longrightarrow>
            configCheckCircuitBreaker now circuitBreakerCache p =
              (let cb = \<lparr>status = Closed, output = Next, errors = [], successCount = 0,
                          errorCodeMap = Map.empty, params = spec_merge p spec_defaults,
                          openedTimestamp = None\<rparr>
               in (circuitBreakerCache(cbid \<mapsto> cb), Inr (Next, cb)))"
    using check_new[OF assms] by blast
  have old: "\<forall>cb. circuitBreakerCache cbid = Some cb \<longrightarrow>
            (\<exists>cb'. fst (configCheckCircuitBreaker now circuitBreakerCache p) cbid = Some cb' \<and>
                   params cb' = params cb)"
    using check_keeps[where circuitBreakerCache=circuitBreakerCache and cbid=cbid and now=now and p=p]
    by blast
  show ?thesis using new old by (simp add: spec_merge_def spec_defaults_def)
qed

theorem check_creates_with_defaults_witness:
  "configCheckCircuitBreaker 5 Map.empty demo_params =
     ([''b1'' \<mapsto> demo_breaker Closed [] 0 None], Inr (Next, demo_breaker Closed [] 0 None))
   \<and> maxErrorCount (params (demo_breaker Closed [] 0 None)) = Some 2
   \<and> maxResponseTime (params (demo_breaker Closed [] 0 None)) = Some 100
   \<and> communicationError (params (demo_breaker Closed [] 0 None)) = Some True
   \<and> (\<exists>cb'. fst (configCheckCircuitBreaker 9 [''b1'' \<mapsto> demo_breaker Closed [] 0 None]
                    (demo_params\<lparr>maxErrorCount := Some 50, returnCodes := Some ''500''\<rparr>)) ''b1''
              = Some cb' \<and> params cb' = params (demo_breaker Closed [] 0 None))"
  using check_creates_with_defaults[of demo_params "''b1''" Map.empty 5]
    check_creates_with_defaults[of
      "demo_params\<lparr>maxErrorCount := Some 50, returnCodes := Some ''500''\<rparr>" "''b1''"
      "[''b1'' \<mapsto> demo_breaker Closed [] 0 None]" 9]
  by (simp add: demo_params_def demo_breaker_def setDefaultParams_merge spec_merge_def
      spec_defaults_def Let_def)

text \<open>
  Claim C1 fails on the code. A breaker configured with maxErrorCount 2, timeRange 10 and
  recoverPeriod 30 records an error at time 1000 and one at time 99000, which opens it.
  A check at time 100000 finds the recovery period not elapsed and prunes: the window
  starts at 90000, so the error of time 99000 is inside it and the pruning of the
  specification keeps it, but the code empties the list. The callback's
  \<^verbatim>\<open>splice(index)\<close> removes the stale entry and everything after it.
\<close>

theorem prune_drops_fresh_errors:
  "map_option (\<lambda>cb. (status cb, openedTimestamp cb, map timestamp (errors cb)))
       (run Map.empty [Check 0 demo_params, Update 1000 ''id'' (demo_update 500),
                        Update 99000 ''id'' (demo_update 500)] ''b1'')
     = Some (Open, Some 99000, [1000, 99000])
   \<and> map_option (\<lambda>cb. map timestamp (errors cb))
       (run Map.empty [Check 0 demo_params, Update 1000 ''id'' (demo_update 500),
                        Update 99000 ''id'' (demo_update 500), Check 100000 demo_params] ''b1'')
     = Some []
   \<and> map timestamp (spec_prune [demo_event 1000, demo_event 99000] 10 100000) = [99000]"
  by code_simp

text \<open>
  Claim C2, as the code has it. The test of the code is strict: a check of an open
  breaker at a time \<open>now\<close> with \<open>now - openedAt > recoverPeriod * 1000\<close> makes the breaker
  halfopen with successCount 0 and, in the same call, gives the outcome that the halfopen
  logic gives on that breaker: with halfOpenSuccesses above 0, the route next. With
  \<open>now - openedAt \<le> recoverPeriod * 1000\<close>, the exact boundary included, the breaker does
  not become halfopen and its successCount stays.
\<close>

theorem open_recovery:
  assumes "circuitBreakerId p = Some cbid" and "cbid \<noteq> []"
    and "circuitBreakerCache cbid = Some cb" and "status cb = Open"
    and "openedTimestamp cb = Some t" and "recoverPeriod (params cb) = Some rp"
  shows "(rp * 1000 < now - t \<longrightarrow> \<not> js_ge (Some 0) (halfOpenSuccesses (params cb)) \<longrightarrow>
            configCheckCircuitBreaker now circuitBreakerCache p =
              (let cb' = cb\<lparr>status := Halfopen, successCount := 0, output := Next\<rparr>
               in (circuitBreakerCache(cbid \<mapsto> cb'), Inr (Next, cb'))) \<and>
            snd (configCheckCircuitBreaker now circuitBreakerCache p) =
              snd (configCheckCircuitBreaker now
                    (circuitBreakerCache(cbid \<mapsto> cb\<lparr>status := Halfopen, successCount := 0\<rparr>)) p))
       \<and> (now - t \<le> rp * 1000 \<longrightarrow>
            (\<exists>cb'. fst (configCheckCircuitBreaker now circuitBreakerCache p) cbid = Some cb' \<and>
                   status cb' \<noteq> Halfopen \<and> successCount cb' = successCount cb))"
  using assms
  by (auto simp: configCheckCircuitBreaker_def handleOpenStatus_def handleHalfopenStatus_def Let_def)

theorem open_recovery_witness:
  "configCheckCircuitBreaker 100000
      [''b1'' \<mapsto> demo_breaker Open [demo_event 1000, demo_event 2000] 7 (Some 69999)] demo_params =
     ([''b1'' \<mapsto> demo_breaker Halfopen [demo_event 1000, demo_event 2000] 0 (Some 69999)],
      Inr (Next, demo_breaker Halfopen [demo_event 1000, demo_event 2000] 0 (Some 69999)))"
  using open_recovery[of demo_params "''b1''"
      "[''b1'' \<mapsto> demo_breaker Open [demo_event 1000, demo_event 2000] 7 (Some 69999)]"
      "demo_breaker Open [demo_event 1000, demo_event 2000] 7 (Some 69999)" 69999 30 100000]
  by (simp add: demo_params_def demo_breaker_def setDefaultParams_def Let_def)

theorem open_recovery_boundary_counterexample:
  "100000 - 70000 = (30::int) * 1000
   \<and> configCheckCircuitBreaker 100000
      [''b1'' \<mapsto> demo_breaker Open [demo_event 99000, demo_event 99500] 7 (Some 70000)] demo_params =
     ([''b1'' \<mapsto> (demo_breaker Open [demo_event 99000, demo_event 99500] 7 (Some 70000))
                    \<lparr>output := OpenOut\<rparr>],
      Inr (OpenOut, (demo_breaker Open [demo_event 99000, demo_event 99500] 7 (Some 70000))
                    \<lparr>output := OpenOut\<rparr>))"
  by (simp add: configCheckCircuitBreaker_def handleOpenStatus_def Let_def demo_params_def
      demo_breaker_def setDefaultParams_def demo_event_def timeRangeStart_def numeral_2_eq_2)

text \<open>
  Claim C5, as the code has it. For an existing breaker and a response code that is
  classified as an error, update appends the event with timestamp \<open>now\<close> and cause
  "responseCode <code>", and sets status open and openedTimestamp \<open>now\<close> exactly when the
  status was halfopen or the length of errors after the append is at least maxErrorCount;
  for a code classified as a success it adds one to successCount. In both cases the
  route is next, and the only other field that changes is \<^verbatim>\<open>errorCodeMap\<close>, which holds
  the classification of the code afterwards. The response code is a safe integer, so
  that the text of the cause is its decimal text.
\<close>

theorem update_effect:
  assumes "circuitBreakerId p = Some cbid" and "cbid \<noteq> []"
    and "httpResponseCode p = Some code" and "code \<noteq> 0"
    and "circuitBreakerCache cbid = Some cb"
    and "isReturnCodeAnError cb (Some code) = Inr (isErr, cb1)"
    and "safe_integer code"
  shows "updateCircuitBreaker now rid circuitBreakerCache p =
     (let cbm = cb\<lparr>errorCodeMap := (errorCodeMap cb)(code \<mapsto> isErr)\<rparr>;
          cb' = (if isErr then
                   (let cbe = cbm\<lparr>errors := errors cb @
                                [\<lparr>error = rid, timestamp = now,
                                  cause = ''responseCode '' @ number_to_string code\<rparr>]\<rparr>
                    in if status cb = Halfopen \<or>
                          js_ge (Some (int (length (errors cb)) + 1)) (maxErrorCount (params cb))
                       then cbe\<lparr>status := Open, openedTimestamp := Some now\<rparr>
                       else cbe)
                 else cbm\<lparr>successCount := successCount cb + 1\<rparr>)
      in (circuitBreakerCache(cbid \<mapsto> cb'), Inr (Next, cb')))"
  using assms(1-6) by (rule update_existing_step)

theorem update_effect_witness:
  "updateCircuitBreaker 99000 ''id''
      [''b1'' \<mapsto> demo_breaker Closed [demo_event 1000] 4 None] (demo_update 500) =
     ([''b1'' \<mapsto> (demo_breaker Open [demo_event 1000, demo_event 99000] 4 (Some 99000))
                    \<lparr>errorCodeMap := [500 \<mapsto> True]\<rparr>],
      Inr (Next, (demo_breaker Open [demo_event 1000, demo_event 99000] 4 (Some 99000))
                    \<lparr>errorCodeMap := [500 \<mapsto> True]\<rparr>))
   \<and> updateCircuitBreaker 99000 ''id''
      [''b1'' \<mapsto> demo_breaker Halfopen [demo_event 1000] 4 None] (demo_update 200) =
     ([''b1'' \<mapsto> (demo_breaker Halfopen [demo_event 1000] 5 None)
                    \<lparr>errorCodeMap := [200 \<mapsto> False]\<rparr>],
      Inr (Next, (demo_breaker Halfopen [demo_event 1000] 5 None)
                    \<lparr>errorCodeMap := [200 \<mapsto> False]\<rparr>))"
proof -
  have h1: "isReturnCodeAnError (demo_breaker Closed [demo_event 1000] 4 None) (Some 500) =
     Inr (True, (demo_breaker Closed [demo_event 1000] 4 None)\<lparr>errorCodeMap := [500 \<mapsto> True]\<rparr>)"
    by (simp only: demo_isReturnCodeAnError demo_match_500)
  have h2: "isReturnCodeAnError (demo_breaker Halfopen [demo_event 1000] 4 None) (Some 200) =
     Inr (False, (demo_breaker Halfopen [demo_event 1000] 4 None)\<lparr>errorCodeMap := [200 \<mapsto> False]\<rparr>)"
    by (simp only: demo_isReturnCodeAnError demo_match_200)
  have i: "circuitBreakerId (demo_update c) = Some ''b1''" "httpResponseCode (demo_update c) = Some c"
    for c by (simp_all add: demo_update_def demo_params_def)
  show ?thesis
    using update_effect[where p="demo_update 500" and cbid="''b1''" and code=500 and now=99000
        and rid="''id''" and circuitBreakerCache="[''b1'' \<mapsto> demo_breaker Closed [demo_event 1000] 4 None]",
        OF i(1) _ i(2) _ _ h1]
      update_effect[where p="demo_update 200" and cbid="''b1''" and code=200 and now=99000
        and rid="''id''" and circuitBreakerCache="[''b1'' \<mapsto> demo_breaker Halfopen [demo_event 1000] 4 None]",
        OF i(1) _ i(2) _ _ h2]
    by (simp add: Let_def demo_breaker_def demo_event_def demo_number_500 demo_params_def
        setDefaultParams_def safe_integer_def)
qed

theorem update_writes_cache_counterexample:
  "errorCodeMap (demo_breaker Closed [] 0 None) 200 = None
   \<and> updateCircuitBreaker 5 ''id'' [''b1'' \<mapsto> demo_breaker Closed [] 0 None] (demo_update 200) =
       ([''b1'' \<mapsto> (demo_breaker Closed [] 1 None)\<lparr>errorCodeMap := [200 \<mapsto> False]\<rparr>],
        Inr (Next, (demo_breaker Closed [] 1 None)\<lparr>errorCodeMap := [200 \<mapsto> False]\<rparr>))
   \<and> errorCodeMap ((demo_breaker Closed [] 1 None)\<lparr>errorCodeMap := [200 \<mapsto> False]\<rparr>) 200
       = Some False"
proof -
  have "isReturnCodeAnError (demo_breaker Closed [] 0 None) (Some 200) =
     Inr (False, (demo_breaker Closed [] 0 None)\<lparr>errorCodeMap := [200 \<mapsto> False]\<rparr>)"
    by (simp only: demo_isReturnCodeAnError demo_match_200)
  then show ?thesis
    by (simp add: updateCircuitBreaker_def demo_update_def demo_params_def demo_breaker_def
        Let_def)
qed

lemma demo_created:
  "run Map.empty [Check 0 demo_params] ''b1'' = Some (demo_breaker Closed [] 0 None)"
  using check_new[of demo_params "''b1''" Map.empty 0]
  by (simp add: demo_params_def demo_breaker_def setDefaultParams_merge Let_def)

lemma demo_returnCodes:
  "returnCodes (params (demo_breaker st errs sc opened)) = Some ''[300-500], 999''"
  by (simp add: demo_breaker_def demo_params_def setDefaultParams_def)

lemma demo_spec_307: "spec_is_error ''[300-500], 999'' 307 = True"
  by code_simp

lemma demo_spec_600: "spec_is_error ''[300-500], 999'' 600 = False"
  by code_simp

lemma demo_classify:
  "classify (demo_breaker st errs sc opened) code = Some (match_fields code [''[300-500]'', '' 999''])"
  by (simp only: classify_def demo_isReturnCodeAnError sum.case prod.case)

text \<open>
  Claim C6. Let the \<^verbatim>\<open>returnCodes\<close> of a breaker be a comma-separated list of integer
  tokens (decimal digits, of a value up to \<open>2^53 - 1\<close>, which a JavaScript number holds
  without rounding) and ranges \<^verbatim>\<open>lo-hi\<close>, brackets optional. The first classification of
  a code returns true exactly when some token matches the code, an integer token by
  numeric equality and a range by \<open>lo \<le> code \<le> hi\<close>, and stores that result; and every
  breaker that the two actions have built from the empty cache, the store dropping
  entries when it likes, classifies so, whatever its cache holds. For the spec
  "[300-500], 999", 600 is not an error, 307 and 999 are.
\<close>

theorem classify_matches_spec:
  assumes "returnCodes (params cb) = Some spec" and "spec_wellformed spec"
  shows "(errorCodeMap cb code = None \<longrightarrow>
            isReturnCodeAnError cb (Some code) =
              Inr (spec_is_error spec code,
                   cb\<lparr>errorCodeMap := (errorCodeMap cb)(code \<mapsto> spec_is_error spec code)\<rparr>))
       \<and> (\<forall>calls cbid. run Map.empty calls cbid = Some cb \<longrightarrow>
             classify cb code = Some (spec_is_error spec code))
       \<and> spec_wellformed ''[300-500], 999''
       \<and> classify (demo_breaker Closed [] 0 None) 600 = Some False
       \<and> classify (demo_breaker Closed [] 0 None) 307 = Some True
       \<and> classify (demo_breaker Closed [] 0 None) 999 = Some True"
proof -
  have m: "match_fields code (split_on CHR '','' spec) = spec_is_error spec code"
    using assms(2) by (rule spec_is_error_match)
  have first: "errorCodeMap cb code = None \<longrightarrow>
            isReturnCodeAnError cb (Some code) =
              Inr (spec_is_error spec code,
                   cb\<lparr>errorCodeMap := (errorCodeMap cb)(code \<mapsto> spec_is_error spec code)\<rparr>)"
    using assms(1) m by (simp add: isReturnCodeAnError_def Let_def)
  have reach: "classify cb code = Some (spec_is_error spec code)"
    if "run Map.empty calls cbid = Some cb" for calls cbid
  proof -
    have "cache_consistent cb" using that by (rule reachable_consistent)
    from consistent_classify[OF this assms(1), of code] m
    show ?thesis by (auto simp: classify_def)
  qed
  have scen: "classify (demo_breaker Closed [] 0 None) 600 = Some False"
    "classify (demo_breaker Closed [] 0 None) 307 = Some True"
    "classify (demo_breaker Closed [] 0 None) 999 = Some True"
    by (simp_all only: demo_classify demo_match_600 demo_match_307 demo_match_999)
  from first reach scen demo_wellformed show ?thesis by blast
qed

theorem classify_matches_spec_witness:
  "isReturnCodeAnError (demo_breaker Closed [] 0 None) (Some 307) =
     Inr (True, (demo_breaker Closed [] 0 None)\<lparr>errorCodeMap := [307 \<mapsto> True]\<rparr>)
   \<and> classify (demo_breaker Closed [] 0 None) 600 = Some False"
  using classify_matches_spec[of "demo_breaker Closed [] 0 None" "''[300-500], 999''" 307]
    classify_matches_spec[of "demo_breaker Closed [] 0 None" "''[300-500], 999''" 600]
    demo_created
  by (simp only: demo_returnCodes demo_wellformed demo_spec_307 demo_spec_600)
     (simp add: demo_breaker_def)

text \<open>
  Claim C7. A classification of a code that finds an entry for the code in the
  \<^verbatim>\<open>errorCodeMap\<close> of a breaker returns that entry, whatever the \<^verbatim>\<open>returnCodes\<close> of the
  breaker are, and leaves the breaker as it is: the spec is not parsed. A first
  classification, which finds none, parses the \<^verbatim>\<open>returnCodes\<close> and writes its result into
  the \<^verbatim>\<open>errorCodeMap\<close>, changing nothing else. After any further checks and updates on
  the cache that holds the breaker, as long as the store has not dropped the breaker, the
  breaker still has its \<^verbatim>\<open>returnCodes\<close> and the entry, so that a classification of the
  code returns the result of the first one and changes nothing.
\<close>

theorem classify_idempotent:
  assumes "isReturnCodeAnError cb (Some code) = Inr (r, cb1)" and "c cbid = Some cb1"
  shows "(\<forall>cb0 v. errorCodeMap cb0 code = Some v \<longrightarrow>
            isReturnCodeAnError cb0 (Some code) = Inr (v, cb0))
       \<and> (errorCodeMap cb code = None \<longrightarrow>
            (\<exists>spec. returnCodes (params cb) = Some spec \<and>
                    r = match_fields code (split_on CHR '','' spec)))
       \<and> cb1 = cb\<lparr>errorCodeMap := (errorCodeMap cb)(code \<mapsto> r)\<rparr>
       \<and> errorCodeMap cb1 code = Some r
       \<and> (\<forall>calls. Evict cbid \<notin> set calls \<longrightarrow>
            (\<exists>cb2. run c calls cbid = Some cb2 \<and>
                   returnCodes (params cb2) = returnCodes (params cb) \<and>
                   errorCodeMap cb2 code = Some r \<and>
                   isReturnCodeAnError cb2 (Some code) = Inr (r, cb2)))"
proof -
  have hit: "\<forall>cb0 v. errorCodeMap cb0 code = Some v \<longrightarrow>
            isReturnCodeAnError cb0 (Some code) = Inr (v, cb0)"
    by (simp add: isReturnCodeAnError_hit)
  have miss: "errorCodeMap cb code = None \<longrightarrow>
            (\<exists>spec. returnCodes (params cb) = Some spec \<and>
                    r = match_fields code (split_on CHR '','' spec))"
    using assms(1) by (auto simp: isReturnCodeAnError_def Let_def split: option.splits)
  have f: "cb1 = cb\<lparr>errorCodeMap := (errorCodeMap cb)(code \<mapsto> r)\<rparr>"
    using assms(1) by (rule isReturnCodeAnError_fields)
  have w: "errorCodeMap cb1 code = Some r"
    using assms(1) by (rule isReturnCodeAnError_written)
  have p: "params cb1 = params cb"
    using assms(1) isReturnCodeAnError_frame by blast
  have later: "\<exists>cb2. run c calls cbid = Some cb2 \<and>
                   returnCodes (params cb2) = returnCodes (params cb) \<and>
                   errorCodeMap cb2 code = Some r \<and>
                   isReturnCodeAnError cb2 (Some code) = Inr (r, cb2)"
    if ne: "Evict cbid \<notin> set calls" for calls
  proof -
    from run_keeps[where c=c and cbid=cbid and cb=cb1 and code=code and v=r and calls=calls,
        OF assms(2) w ne]
    obtain cb2 where s: "run c calls cbid = Some cb2" "params cb2 = params cb1"
      "errorCodeMap cb2 code = Some r" by blast
    show ?thesis using s p by (simp add: isReturnCodeAnError_hit)
  qed
  from hit miss f w later show ?thesis by blast
qed

theorem classify_idempotent_witness:
  "isReturnCodeAnError (demo_breaker Closed [] 0 None) (Some 307) =
     Inr (True, (demo_breaker Closed [] 0 None)\<lparr>errorCodeMap := [307 \<mapsto> True]\<rparr>)
   \<and> isReturnCodeAnError ((demo_breaker Closed [] 0 None)\<lparr>errorCodeMap := [307 \<mapsto> False]\<rparr>)
       (Some 307) =
     Inr (False, (demo_breaker Closed [] 0 None)\<lparr>errorCodeMap := [307 \<mapsto> False]\<rparr>)
   \<and> (\<exists>cb2. run [''b1'' \<mapsto> (demo_breaker Closed [] 0 None)\<lparr>errorCodeMap := [307 \<mapsto> True]\<rparr>]
               [Update 5 ''id'' (demo_update 200), Check 6 demo_params, Evict ''b2'',
                Update 7 ''id'' (demo_update 500)] ''b1'' = Some cb2 \<and>
             isReturnCodeAnError cb2 (Some 307) = Inr (True, cb2))"
proof -
  have h: "isReturnCodeAnError (demo_breaker Closed [] 0 None) (Some 307) =
     Inr (True, (demo_breaker Closed [] 0 None)\<lparr>errorCodeMap := [307 \<mapsto> True]\<rparr>)"
    by (simp only: demo_isReturnCodeAnError demo_match_307)
  have k: "[''b1'' \<mapsto> (demo_breaker Closed [] 0 None)\<lparr>errorCodeMap := [307 \<mapsto> True]\<rparr>] ''b1''
            = Some ((demo_breaker Closed [] 0 None)\<lparr>errorCodeMap := [307 \<mapsto> True]\<rparr>)"
    by simp
  have e: "Evict ''b1'' \<notin> set [Update 5 ''id'' (demo_update 200), Check 6 demo_params,
                Evict ''b2'', Update 7 ''id'' (demo_update 500)]"
    by simp
  have m: "errorCodeMap ((demo_breaker Closed [] 0 None)\<lparr>errorCodeMap := [307 \<mapsto> False]\<rparr>) 307
            = Some False"
    by simp
  note t = classify_idempotent[where cb="demo_breaker Closed [] 0 None" and code=307 and r=True
      and ?cb1.0="(demo_breaker Closed [] 0 None)\<lparr>errorCodeMap := [307 \<mapsto> True]\<rparr>"
      and c="[''b1'' \<mapsto> (demo_breaker Closed [] 0 None)\<lparr>errorCodeMap := [307 \<mapsto> True]\<rparr>]"
      and cbid="''b1''", OF h k]
  from t e m h show ?thesis by blast
qed

end
